theory Spec2Isabelle
  imports Complex_Main
begin

section \<open>COCO pose dataset: annotation-to-record pipeline\<close>

text \<open>
  A shallow embedding of \<^verbatim>\<open>mmpose/datasets/datasets2/body/coco_dataset.py\<close>
  (class \<^verbatim>\<open>CocoDataset\<close>).

  Conventions of the embedding.
  \<^item> Numbers held in \<^verbatim>\<open>float32\<close> arrays are exact reals; rounding is not modelled.
  \<^item> An array whose leading (instance) axis has size 1 is modelled by its single entry:
    a \<^verbatim>\<open>bbox\<close> of shape (1, 4) is one 4-tuple, \<^verbatim>\<open>bbox_score\<close> of shape (1,) is
    one real, \<^verbatim>\<open>keypoints\<close> of shape (1, K, 2) is a list of K pairs and
    \<^verbatim>\<open>keypoints_visible\<close> of shape (1, K, 1) is a list of K reals. Concatenating N such
    arrays along axis 0 gives a list of N entries.
  \<^item> Every \<^verbatim>\<open>raise\<close> of the source, and every exception of a library call the source
    makes on its own data, is a value \<open>Inl e\<close> of the result type.
  \<^item> A leading underscore of a Python name is dropped; the record field \<^verbatim>\<open>id\<close> is
    called \<open>inst_id\<close>.
\<close>

subsection \<open>Errors\<close>

datatype error =
    InvalidDataMode            \<comment> \<open>ValueError: data_mode is neither topdown nor bottomup\<close>
  | BBoxFileNotTopdown         \<comment> \<open>ValueError: bbox_file outside topdown mode\<close>
  | BBoxFileNotTestMode        \<comment> \<open>ValueError: bbox_file with test_mode == False\<close>
  | BBoxScoreThrNotTopdown     \<comment> \<open>ValueError: bbox_score_thr outside topdown mode\<close>
  | FileNotFound string        \<comment> \<open>check_file_exist\<close>
  | KeyError int               \<comment> \<open>image id missing from the index\<close>
  | ReshapeError               \<comment> \<open>ValueError of ndarray.reshape\<close>
  | ConcatShapeError           \<comment> \<open>ValueError of np.concatenate\<close>
  | AmbiguousTruthValue        \<comment> \<open>ValueError: truth value of an array with several elements\<close>

subsection \<open>Data model\<close>

type_synonym box = "real \<times> real \<times> real \<times> real"

text \<open>A raw annotation (a dict of the annotation file). Optional keys are options.\<close>

record 'seg raw_ann =
  ann_bbox :: box
  ann_keypoints :: "real list"
  ann_num_keypoints :: "int option"
  ann_iscrowd :: "int option"
  ann_segmentation :: "'seg option"
  ann_image_id :: int
  ann_id :: int

record raw_img =
  file_name :: string
  width :: int
  height :: int

text \<open>Dataset metadata: the keys of \<^verbatim>\<open>self.metainfo\<close> that the class reads.\<close>

record metainfo =
  meta_sigmas :: "real list"
  meta_num_keypoints :: nat

text \<open>
  The eight keys of the dict that \<^verbatim>\<open>_load_detection_results\<close> emits. The dict of
  \<^verbatim>\<open>parse_data_info\<close> has these keys and four more, so it is the extension
  \<open>inst_info\<close>.
\<close>

record det_info =
  image_id :: int
  image_file :: string
  image_shape :: "int \<times> int \<times> int"
  bbox :: box
  bbox_score :: real
  keypoints :: "(real \<times> real) list"
  keypoints_visible :: "real list"
  inst_id :: int

record 'seg inst_info = det_info +
  num_keypoints :: int
  iscrowd :: int
  segmentation :: "'seg option"
  sigmas :: "real list"

subsection \<open>Library functions used on the record data\<close>

text \<open>\<^verbatim>\<open>np.clip(a, a_min, a_max)\<close> is \<^verbatim>\<open>minimum(a_max, maximum(a, a_min))\<close>.\<close>

definition np_clip :: "real \<Rightarrow> real \<Rightarrow> real \<Rightarrow> real" where
  "np_clip a a_min a_max = min a_max (max a a_min)"

text \<open>\<^verbatim>\<open>os.path.join\<close> of two components (POSIX).\<close>

definition osp_join :: "string \<Rightarrow> string \<Rightarrow> string" where
  "osp_join a b =
     (if b \<noteq> [] \<and> hd b = CHR ''/'' then b
      else if a = [] \<or> last a = CHR ''/'' then a @ b
      else a @ ''/'' @ b)"

text \<open>
  \<^verbatim>\<open>np.array(kps).reshape(1, -1, 3)\<close>: the flat list as rows of three; it raises when
  the length is not a multiple of 3.
\<close>

fun reshape_triples :: "real list \<Rightarrow> (real \<times> real \<times> real) list option" where
  "reshape_triples [] = Some []"
| "reshape_triples (x # y # v # rest) =
     (case reshape_triples rest of None \<Rightarrow> None | Some ts \<Rightarrow> Some ((x, y, v) # ts))"
| "reshape_triples _ = None"

subsection \<open>Geometry Normalizer: \<^verbatim>\<open>parse_data_info\<close>\<close>

definition parse_data_info ::
  "string \<Rightarrow> metainfo \<Rightarrow> 'seg raw_ann \<Rightarrow> raw_img \<Rightarrow> error + 'seg inst_info" where
  "parse_data_info img_prefix meta ann img =
     (let image_file' = osp_join img_prefix (file_name img);
          img_w = width img;
          img_h = height img;
          (x, y, w, h) = ann_bbox ann;
          x1 = np_clip x 0 (of_int (img_w - 1));
          y1 = np_clip y 0 (of_int (img_h - 1));
          x2 = np_clip (x + w) 0 (of_int (img_w - 1));
          y2 = np_clip (y + h) 0 (of_int (img_h - 1));
          bbox' = (x1, y1, x2 - x1, y2 - y1)
      in case reshape_triples (ann_keypoints ann) of
           None \<Rightarrow> Inl ReshapeError
         | Some kps3 \<Rightarrow>
             (let keypoints' = map (\<lambda>(kx, ky, kv). (kx, ky)) kps3;
                  keypoints_visible' = map (\<lambda>(kx, ky, kv). min 1 kv) kps3;
                  num_keypoints' =
                    (case ann_num_keypoints ann of
                       Some n \<Rightarrow> n
                     | None \<Rightarrow>
                         int (length (filter (\<lambda>(kx, ky). max kx ky \<noteq> 0) keypoints')))
              in Inr \<lparr> image_id = ann_image_id ann,
                       image_file = image_file',
                       image_shape = (img_h, img_w, 3),
                       bbox = bbox',
                       bbox_score = 1,
                       keypoints = keypoints',
                       keypoints_visible = keypoints_visible',
                       inst_id = ann_id ann,
                       num_keypoints = num_keypoints',
                       iscrowd = (case ann_iscrowd ann of None \<Rightarrow> 0 | Some c \<Rightarrow> c),
                       segmentation = ann_segmentation ann,
                       sigmas = meta_sigmas meta \<rparr>))"

subsection \<open>Instance Validator: \<^verbatim>\<open>_is_valid_instance\<close>\<close>

definition is_valid_instance :: "'seg inst_info \<Rightarrow> bool" where
  "is_valid_instance data_info =
     (if iscrowd data_info \<noteq> 0 then False
      else if num_keypoints data_info = 0 then False
      else (case bbox data_info of (x, y, w, h) \<Rightarrow>
              if w \<le> 0 \<or> h \<le> 0 then False else True))"

subsection \<open>Topdown Assembler: \<^verbatim>\<open>_get_topdown_data_infos\<close>\<close>

definition get_topdown_data_infos :: "'seg inst_info list \<Rightarrow> 'seg inst_info list" where
  "get_topdown_data_infos data_list = filter is_valid_instance data_list"

subsection \<open>External collaborators of the Bottomup Assembler\<close>

text \<open>
  \<^verbatim>\<open>itertools.groupby(iterable, key)\<close>: one group per maximal run of consecutive
  elements with equal keys, in order; the group's key is the key of its first element.
\<close>

function groupby :: "('a \<Rightarrow> 'k) \<Rightarrow> 'a list \<Rightarrow> ('k \<times> 'a list) list" where
  "groupby key [] = []"
| "groupby key (x # xs) =
     (key x, x # takeWhile (\<lambda>y. key y = key x) xs)
       # groupby key (dropWhile (\<lambda>y. key y = key x) xs)"
  by pat_completeness auto
termination
  by (relation "measure (\<lambda>(key, xs). length xs)")
     (auto simp: length_dropWhile_le less_Suc_eq_le)

text \<open>
  \<^verbatim>\<open>np.concatenate(seq, axis=0)\<close> on arrays of shape (1, K, ...): it raises unless all
  arrays agree on K; otherwise the result has one entry per array.
\<close>

definition np_concatenate :: "'a list list \<Rightarrow> error + 'a list list" where
  "np_concatenate seq =
     (case seq of
        [] \<Rightarrow> Inl ConcatShapeError
      | a # rest \<Rightarrow>
          if list_all (\<lambda>b. length b = length a) rest then Inr seq
          else Inl ConcatShapeError)"

text \<open>
  The run-length-encoded mask library \<^verbatim>\<open>xtcocotools.mask\<close> is not part of the
  source; it is a parameter. \<open>'seg\<close> is the type of region descriptors, \<open>'obj\<close> the
  type of the Python objects the library returns.
  \<^item> \<open>seg_truthy\<close>: Python truthiness of a descriptor (\<^verbatim>\<open>if not seg\<close>);
  \<^item> \<open>frPyObjects\<close>: \<^verbatim>\<open>cocomask.frPyObjects(seg, img_h, img_w)\<close>;
  \<^item> \<open>obj_items\<close>: the elements of a returned object when it is iterated
    (\<^verbatim>\<open>rles.extend(...)\<close>): for a list of masks, its masks;
  \<^item> \<open>rle_merge\<close>: \<^verbatim>\<open>cocomask.merge(rles)\<close>.
\<close>

record ('seg, 'obj) mask_lib =
  seg_truthy :: "'seg \<Rightarrow> bool"
  frPyObjects :: "'seg \<Rightarrow> int \<Rightarrow> int \<Rightarrow> 'obj"
  obj_items :: "'obj \<Rightarrow> 'obj list"
  rle_merge :: "'obj list \<Rightarrow> 'obj"

subsection \<open>Bottomup Assembler: \<^verbatim>\<open>_get_bottomup_data_infos\<close>\<close>

text \<open>The image-level dict \<^verbatim>\<open>data_info_bu\<close>.\<close>

record ('seg, 'obj) aggregate =
  agg_image_id :: int
  agg_image_file :: string
  agg_image_shape :: "int \<times> int \<times> int"
  agg_sigmas :: "real list"
  agg_bbox :: "box list"
  agg_bbox_score :: "real list"
  agg_num_keypoints :: "int list"
  agg_keypoints :: "(real \<times> real) list list"
  agg_keypoints_visible :: "real list list"
  agg_iscrowd :: "int list"
  agg_segmentation :: "'seg option list"
  agg_id :: "int list"
  mask_invalid_rle :: 'obj

text \<open>The loop over the invalid instances of a group (lines 301 to 315).\<close>

fun invalid_rles ::
  "('seg, 'obj) mask_lib \<Rightarrow> int \<Rightarrow> int \<Rightarrow> 'seg inst_info list \<Rightarrow> 'obj list \<Rightarrow> 'obj list" where
  "invalid_rles lib img_h img_w [] rles = rles"
| "invalid_rles lib img_h img_w (d # ds) rles =
     (case segmentation d of
        None \<Rightarrow> invalid_rles lib img_h img_w ds rles
      | Some seg \<Rightarrow>
          if \<not> seg_truthy lib seg then invalid_rles lib img_h img_w ds rles
          else if iscrowd d \<noteq> 0 then
            invalid_rles lib img_h img_w ds (rles @ [frPyObjects lib seg img_h img_w])
          else if num_keypoints d = 0 then
            invalid_rles lib img_h img_w ds
              (rles @ obj_items lib (frPyObjects lib seg img_h img_w))
          else invalid_rles lib img_h img_w ds rles)"

text \<open>
  The body of the loop over the groups: \<open>None\<close> is \<^verbatim>\<open>continue\<close> (no valid instance),
  \<open>Some (Inl e)\<close> an exception of \<^verbatim>\<open>np.concatenate\<close>, \<open>Some (Inr a)\<close> the appended dict.
\<close>

definition aggregate_group ::
  "('seg, 'obj) mask_lib \<Rightarrow> int \<Rightarrow> 'seg inst_info list
     \<Rightarrow> (error + ('seg, 'obj) aggregate) option" where
  "aggregate_group lib image_id' data_infos =
     (let data_infos_valid = filter is_valid_instance data_infos
      in case data_infos_valid of
           [] \<Rightarrow> None
         | first # _ \<Rightarrow>
             Some
               (case np_concatenate (map keypoints data_infos_valid) of
                  Inl e \<Rightarrow> Inl e
                | Inr kps \<Rightarrow>
                    (case np_concatenate (map keypoints_visible data_infos_valid) of
                       Inl e \<Rightarrow> Inl e
                     | Inr vis \<Rightarrow>
                         (case image_shape first of
                            (img_h, img_w, ch) \<Rightarrow>
                              Inr \<lparr> agg_image_id = image_id',
                                    agg_image_file = image_file first,
                                    agg_image_shape = image_shape first,
                                    agg_sigmas = sigmas first,
                                    agg_bbox = map bbox data_infos_valid,
                                    agg_bbox_score = map bbox_score data_infos_valid,
                                    agg_num_keypoints = map num_keypoints data_infos_valid,
                                    agg_keypoints = kps,
                                    agg_keypoints_visible = vis,
                                    agg_iscrowd = map iscrowd data_infos_valid,
                                    agg_segmentation = map segmentation data_infos_valid,
                                    agg_id = map inst_id data_infos_valid,
                                    mask_invalid_rle =
                                      rle_merge lib
                                        (invalid_rles lib img_h img_w
                                           (filter (\<lambda>d. \<not> is_valid_instance d) data_infos)
                                           []) \<rparr>))))"

fun bottomup_loop ::
  "('seg, 'obj) mask_lib \<Rightarrow> (int \<times> 'seg inst_info list) list
     \<Rightarrow> error + ('seg, 'obj) aggregate list" where
  "bottomup_loop lib [] = Inr []"
| "bottomup_loop lib ((image_id', data_infos) # groups) =
     (case aggregate_group lib image_id' data_infos of
        None \<Rightarrow> bottomup_loop lib groups
      | Some (Inl e) \<Rightarrow> Inl e
      | Some (Inr a) \<Rightarrow>
          (case bottomup_loop lib groups of
             Inl e \<Rightarrow> Inl e
           | Inr data_list_bu \<Rightarrow> Inr (a # data_list_bu)))"

definition get_bottomup_data_infos ::
  "('seg, 'obj) mask_lib \<Rightarrow> 'seg inst_info list \<Rightarrow> error + ('seg, 'obj) aggregate list" where
  "get_bottomup_data_infos lib data_list = bottomup_loop lib (groupby image_id data_list)"

subsection \<open>The annotation index\<close>

text \<open>
  The index that \<^verbatim>\<open>COCO(ann_file)\<close> builds: the images by id, in file order, and the
  annotations.
\<close>

record 'seg coco =
  coco_imgs :: "(int \<times> raw_img) list"
  coco_anns :: "'seg raw_ann list"

text \<open>
  Modelled from the spec: the annotation index library \<^verbatim>\<open>xtcocotools.coco\<close> is not
  part of the source. The spec gives its contract: enumerate all image ids; given an image
  id, return its metadata; given an image id and a crowd filter, return the matching
  annotation ids; given annotation ids, return the full annotation records. An annotation
  without a crowd flag counts as not crowd (the data model's default).
\<close>

definition getImgIds :: "'seg coco \<Rightarrow> int list" where
  "getImgIds c = map fst (coco_imgs c)"

definition loadImgs :: "'seg coco \<Rightarrow> int \<Rightarrow> error + raw_img" where
  "loadImgs c img_id =
     (case map_of (coco_imgs c) img_id of None \<Rightarrow> Inl (KeyError img_id) | Some img \<Rightarrow> Inr img)"

definition getAnnIds :: "'seg coco \<Rightarrow> int \<Rightarrow> bool \<Rightarrow> int list" where
  "getAnnIds c img_id crowd =
     map ann_id
       (filter
          (\<lambda>a. ann_image_id a = img_id
                \<and> ((case ann_iscrowd a of None \<Rightarrow> 0 | Some v \<Rightarrow> v) \<noteq> 0) = crowd)
          (coco_anns c))"

definition loadAnns :: "'seg coco \<Rightarrow> int list \<Rightarrow> 'seg raw_ann list" where
  "loadAnns c ids = List.map_filter (\<lambda>i. find (\<lambda>a. ann_id a = i) (coco_anns c)) ids"

text \<open>
  The files of the run: which paths hold an annotation file (and the index built from
  it), and which hold detection results (and the list loaded from it). A function that
  touches the file system returns the paths it touched, in order, beside its result.
\<close>

record det =
  det_image_id :: int
  det_category_id :: int
  det_bbox :: "real list"
  det_score :: real

record 'seg world =
  coco_files :: "string \<Rightarrow> 'seg coco option"
  det_files :: "string \<Rightarrow> det list option"

subsection \<open>Ground-truth load path: \<^verbatim>\<open>_load_annotations\<close>\<close>

text \<open>
  The inner loop over the annotations of one image. The dict of \<^verbatim>\<open>parse_data_info\<close>
  is never empty, so \<^verbatim>\<open>if not data_info: continue\<close> never skips.
\<close>

fun parse_anns ::
  "string \<Rightarrow> metainfo \<Rightarrow> raw_img \<Rightarrow> 'seg raw_ann list \<Rightarrow> error + 'seg inst_info list" where
  "parse_anns img_prefix meta img [] = Inr []"
| "parse_anns img_prefix meta img (ann # anns) =
     (case parse_data_info img_prefix meta ann img of
        Inl e \<Rightarrow> Inl e
      | Inr data_info \<Rightarrow>
          (case parse_anns img_prefix meta img anns of
             Inl e \<Rightarrow> Inl e
           | Inr rest \<Rightarrow> Inr (data_info # rest)))"

fun load_images ::
  "string \<Rightarrow> metainfo \<Rightarrow> 'seg coco \<Rightarrow> int list \<Rightarrow> error + 'seg inst_info list" where
  "load_images img_prefix meta c [] = Inr []"
| "load_images img_prefix meta c (img_id # img_ids) =
     (case loadImgs c img_id of
        Inl e \<Rightarrow> Inl e
      | Inr img \<Rightarrow>
          (case parse_anns img_prefix meta img (loadAnns c (getAnnIds c img_id False)) of
             Inl e \<Rightarrow> Inl e
           | Inr infos \<Rightarrow>
               (case load_images img_prefix meta c img_ids of
                  Inl e \<Rightarrow> Inl e
                | Inr rest \<Rightarrow> Inr (infos @ rest))))"

definition load_annotations ::
  "'seg world \<Rightarrow> string \<Rightarrow> metainfo \<Rightarrow> string
     \<Rightarrow> string list \<times> (error + 'seg inst_info list)" where
  "load_annotations w img_prefix meta ann_file' =
     (case coco_files w ann_file' of
        None \<Rightarrow> ([ann_file'], Inl (FileNotFound ann_file'))
      | Some c \<Rightarrow> ([ann_file'], load_images img_prefix meta c (getImgIds c)))"

subsection \<open>Detection-Result Adapter: \<^verbatim>\<open>_load_detection_results\<close>\<close>

text \<open>The loop over the detections; \<open>id'\<close> is the counter \<^verbatim>\<open>id_\<close>.\<close>

fun detections_loop ::
  "string \<Rightarrow> metainfo \<Rightarrow> 'seg coco \<Rightarrow> det list \<Rightarrow> int \<Rightarrow> det_info list
     \<Rightarrow> error + det_info list" where
  "detections_loop img_prefix meta c [] id' data_list = Inr data_list"
| "detections_loop img_prefix meta c (d # ds) id' data_list =
     (if det_category_id d \<noteq> 1 then detections_loop img_prefix meta c ds id' data_list
      else
        (case loadImgs c (det_image_id d) of
           Inl e \<Rightarrow> Inl e
         | Inr img \<Rightarrow>
             (case take 4 (det_bbox d) of
                [x, y, w, h] \<Rightarrow>
                  detections_loop img_prefix meta c ds (id' + 1)
                    (data_list @
                       [\<lparr> image_id = det_image_id d,
                           image_file = osp_join img_prefix (file_name img),
                           image_shape = (height img, width img, 3),
                           bbox = (x, y, w, h),
                           bbox_score = det_score d,
                           keypoints = replicate (meta_num_keypoints meta) (0, 0),
                           keypoints_visible = replicate (meta_num_keypoints meta) 1,
                           inst_id = id' \<rparr>])
              | _ \<Rightarrow> Inl ReshapeError)))"

definition load_detection_results ::
  "'seg world \<Rightarrow> string \<Rightarrow> metainfo \<Rightarrow> string \<Rightarrow> string
     \<Rightarrow> string list \<times> (error + det_info list)" where
  "load_detection_results w img_prefix meta ann_file' bbox_file' =
     (case coco_files w ann_file' of
        None \<Rightarrow> ([ann_file'], Inl (FileNotFound ann_file'))
      | Some c \<Rightarrow>
          (case det_files w bbox_file' of
             None \<Rightarrow> ([ann_file', bbox_file'], Inl (FileNotFound bbox_file'))
           | Some det_results \<Rightarrow>
               ([ann_file', bbox_file'],
                detections_loop img_prefix meta c det_results 0 [])))"

subsection \<open>Configuration, \<^verbatim>\<open>__init__\<close> and \<^verbatim>\<open>load_data_list\<close>\<close>

record config =
  ann_file :: string
  bbox_file :: "string option"
  data_mode :: string
  filter_cfg :: "(string \<times> real) list option"
  test_mode :: bool
  lazy_init :: bool
  img_prefix :: string
  metainfo :: metainfo

text \<open>\<^verbatim>\<open>if bbox_file:\<close> holds for a string that is not empty.\<close>

definition bbox_file_set :: "config \<Rightarrow> bool" where
  "bbox_file_set cfg = (case bbox_file cfg of None \<Rightarrow> False | Some f \<Rightarrow> f \<noteq> [])"

text \<open>Lines 100 to 118: the checks of \<^verbatim>\<open>__init__\<close>, before \<^verbatim>\<open>super().__init__\<close>.\<close>

definition init_checks :: "config \<Rightarrow> error option" where
  "init_checks cfg =
     (if data_mode cfg \<noteq> ''topdown'' \<and> data_mode cfg \<noteq> ''bottomup'' then Some InvalidDataMode
      else if bbox_file_set cfg then
        (if data_mode cfg \<noteq> ''topdown'' then Some BBoxFileNotTopdown
         else if \<not> test_mode cfg then Some BBoxFileNotTestMode
         else None)
      else None)"

datatype ('seg, 'obj) data_list =
    Instances "'seg inst_info list"
  | Aggregates "('seg, 'obj) aggregate list"
  | Detections "det_info list"

definition load_data_list ::
  "('seg, 'obj) mask_lib \<Rightarrow> 'seg world \<Rightarrow> config
     \<Rightarrow> string list \<times> (error + ('seg, 'obj) data_list)" where
  "load_data_list lib w cfg =
     (case (if bbox_file_set cfg then bbox_file cfg else None) of
        Some bbox_file' \<Rightarrow>
          (case load_detection_results w (img_prefix cfg) (metainfo cfg) (ann_file cfg)
                  bbox_file' of
             (files, Inl e) \<Rightarrow> (files, Inl e)
           | (files, Inr data_list) \<Rightarrow> (files, Inr (Detections data_list)))
      | None \<Rightarrow>
        (case load_annotations w (img_prefix cfg) (metainfo cfg) (ann_file cfg) of
           (files, Inl e) \<Rightarrow> (files, Inl e)
         | (files, Inr data_list) \<Rightarrow>
             if data_mode cfg = ''topdown'' then
               (files, Inr (Instances (get_topdown_data_infos data_list)))
             else
               (case get_bottomup_data_infos lib data_list of
                  Inl e \<Rightarrow> (files, Inl e)
                | Inr data_list_bu \<Rightarrow> (files, Inr (Aggregates data_list_bu)))))"

subsection \<open>Post-Filter: \<^verbatim>\<open>filter_data\<close>\<close>

text \<open>
  \<^verbatim>\<open>filterfalse(pred, data_list)\<close> for a predicate that can raise: the first exception
  aborts.
\<close>

fun filterfalse :: "('r \<Rightarrow> error + bool) \<Rightarrow> 'r list \<Rightarrow> error + 'r list" where
  "filterfalse pred [] = Inr []"
| "filterfalse pred (x # xs) =
     (case pred x of
        Inl e \<Rightarrow> Inl e
      | Inr b \<Rightarrow>
          (case filterfalse pred xs of
             Inl e \<Rightarrow> Inl e
           | Inr ys \<Rightarrow> Inr (if b then ys else x # ys)))"

text \<open>
  \<^verbatim>\<open>ann['bbox_score'] < thr\<close> as a truth value. On an instance-level record the score
  array has one element. On an image-level aggregate it has one element per valid
  instance, and the truth value of an array of several elements raises.
\<close>

definition score_below :: "'a det_info_scheme \<Rightarrow> real \<Rightarrow> error + bool" where
  "score_below ann thr = Inr (bbox_score ann < thr)"

definition agg_score_below :: "('seg, 'obj) aggregate \<Rightarrow> real \<Rightarrow> error + bool" where
  "agg_score_below ann thr =
     (case agg_bbox_score ann of
        [] \<Rightarrow> Inr False
      | [s] \<Rightarrow> Inr (s < thr)
      | _ \<Rightarrow> Inl AmbiguousTruthValue)"

text \<open>
  \<^verbatim>\<open>filter_data\<close>, with \<^verbatim>\<open>self.data_mode\<close>, \<^verbatim>\<open>self.filter_cfg\<close> and
  \<^verbatim>\<open>self.data_list\<close> as arguments; \<open>below\<close> is the comparison on the records of the list.
\<close>

definition filter_data ::
  "('r \<Rightarrow> real \<Rightarrow> error + bool) \<Rightarrow> string \<Rightarrow> (string \<times> real) list option \<Rightarrow> 'r list
     \<Rightarrow> error + 'r list" where
  "filter_data below data_mode' filter_cfg' data_list =
     (case filter_cfg' of
        None \<Rightarrow> Inr data_list
      | Some fc \<Rightarrow>
          (case map_of fc ''bbox_score_thr'' of
             None \<Rightarrow> Inr data_list
           | Some thr \<Rightarrow>
               if data_mode' \<noteq> ''topdown'' then Inl BBoxScoreThrNotTopdown
               else filterfalse (\<lambda>ann. below ann thr) data_list))"

subsection \<open>Construction\<close>

text \<open>
  \<^verbatim>\<open>CocoDataset.__init__\<close>: the checks, then \<^verbatim>\<open>super().__init__(...)\<close>. The base class
  is not part of the source, so its initializer is the parameter \<open>super_init\<close>; like
  the loaders it returns the paths it touched beside its result.
\<close>

definition coco_dataset_init ::
  "(config \<Rightarrow> string list \<times> (error + 'r)) \<Rightarrow> config \<Rightarrow> string list \<times> (error + 'r)" where
  "coco_dataset_init super_init cfg =
     (case init_checks cfg of
        Some e \<Rightarrow> ([], Inl e)
      | None \<Rightarrow> super_init cfg)"

text \<open>
  Modelled from the spec: the base class (\<^verbatim>\<open>BasePoseDataset\<close>, the dataset lifecycle
  plumbing) is not part of the source. The spec gives the control flow: load (the
  Normalizer and an Assembler, or the Adapter), then the Post-Filter; with lazy
  initialization nothing is loaded at construction. \<open>None\<close> is a dataset that is not
  loaded yet.
\<close>

definition full_init ::
  "('seg, 'obj) mask_lib \<Rightarrow> 'seg world \<Rightarrow> config
     \<Rightarrow> string list \<times> (error + ('seg, 'obj) data_list)" where
  "full_init lib w cfg =
     (case load_data_list lib w cfg of
        (files, Inl e) \<Rightarrow> (files, Inl e)
      | (files, Inr (Instances dl)) \<Rightarrow>
          (files, map_sum id Instances
                    (filter_data score_below (data_mode cfg) (filter_cfg cfg) dl))
      | (files, Inr (Detections dl)) \<Rightarrow>
          (files, map_sum id Detections
                    (filter_data score_below (data_mode cfg) (filter_cfg cfg) dl))
      | (files, Inr (Aggregates dl)) \<Rightarrow>
          (files, map_sum id Aggregates
                    (filter_data agg_score_below (data_mode cfg) (filter_cfg cfg) dl)))"

definition base_init ::
  "('seg, 'obj) mask_lib \<Rightarrow> 'seg world \<Rightarrow> config
     \<Rightarrow> string list \<times> (error + ('seg, 'obj) data_list option)" where
  "base_init lib w cfg =
     (if lazy_init cfg then ([], Inr None)
      else (case full_init lib w cfg of (files, r) \<Rightarrow> (files, map_sum id Some r)))"

section \<open>Specification-side definitions\<close>

text \<open>
  The definitions of this section follow the words of the specification, not the source;
  the theorems below compare them with the embedding of the source.
\<close>

text \<open>
  Section 4.2 of the specification: an instance is invalid if \<^verbatim>\<open>iscrowd\<close> is true, or
  \<^verbatim>\<open>num_keypoints == 0\<close>, or the box width is at most 0, or the box height is at most 0.
\<close>

definition spec_invalid :: "'seg inst_info \<Rightarrow> bool" where
  "spec_invalid d =
     (case bbox d of (x, y, w, h) \<Rightarrow>
        iscrowd d \<noteq> 0 \<or> num_keypoints d = 0 \<or> w \<le> 0 \<or> h \<le> 0)"

text \<open>
  A source box \<open>(x, y, w, h)\<close> that lies fully outside the image bounds: it ends at or
  before coordinate 0, or starts at or after the last coordinate \<open>dim - 1\<close>, on at least
  one axis. This is the widest reading of "outside"; a stricter one (starting beyond
  \<open>dim\<close>) implies it.
\<close>

definition box_outside_image :: "box \<Rightarrow> int \<Rightarrow> int \<Rightarrow> bool" where
  "box_outside_image b img_w img_h =
     (case b of (x, y, w, h) \<Rightarrow>
        x + w \<le> 0 \<or> of_int img_w - 1 \<le> x \<or> y + h \<le> 0 \<or> of_int img_h - 1 \<le> y)"

text \<open>
  Records sharing a key are contiguous in a list: no key comes back after another key
  was seen.
\<close>

definition contiguous_by :: "('a \<Rightarrow> 'k) \<Rightarrow> 'a list \<Rightarrow> bool" where
  "contiguous_by key xs = distinct (remdups_adj (map key xs))"

text \<open>
  Section 4.4, step 4 of the specification: the regions one invalid instance contributes
  to the invalid-region mask. A descriptor is present when it is there and truthy.
\<close>

definition spec_regions ::
  "('seg, 'obj) mask_lib \<Rightarrow> int \<Rightarrow> int \<Rightarrow> 'seg inst_info \<Rightarrow> 'obj list" where
  "spec_regions lib img_h img_w d =
     (case segmentation d of
        None \<Rightarrow> []
      | Some seg \<Rightarrow>
          if \<not> seg_truthy lib seg then []
          else if iscrowd d \<noteq> 0 then [frPyObjects lib seg img_h img_w]
          else if num_keypoints d = 0 then obj_items lib (frPyObjects lib seg img_h img_w)
          else [])"

section \<open>Sample data\<close>

text \<open>
  A small mask library for closed instances of the theorems: a region is a list of pixel
  numbers; a crowd descriptor holds one region, a polygon descriptor a list of parts.
\<close>

datatype toy_seg = CrowdRegion "nat list" | Polygons "nat list list"

datatype toy_obj = Rle "nat list" | RleList "nat list list"

fun toy_truthy :: "toy_seg \<Rightarrow> bool" where
  "toy_truthy (CrowdRegion px) = True"
| "toy_truthy (Polygons parts) = (parts \<noteq> [])"

fun toy_frPyObjects :: "toy_seg \<Rightarrow> int \<Rightarrow> int \<Rightarrow> toy_obj" where
  "toy_frPyObjects (CrowdRegion px) img_h img_w = Rle px"
| "toy_frPyObjects (Polygons parts) img_h img_w = RleList parts"

fun toy_items :: "toy_obj \<Rightarrow> toy_obj list" where
  "toy_items (Rle px) = []"
| "toy_items (RleList parts) = map Rle parts"

fun toy_pixels :: "toy_obj \<Rightarrow> nat list" where
  "toy_pixels (Rle px) = px"
| "toy_pixels (RleList parts) = concat parts"

definition toy_merge :: "toy_obj list \<Rightarrow> toy_obj" where
  "toy_merge objs = Rle (remdups (concat (map toy_pixels objs)))"

definition toy_lib :: "(toy_seg, toy_obj) mask_lib" where
  "toy_lib = \<lparr> seg_truthy = toy_truthy, frPyObjects = toy_frPyObjects,
               obj_items = toy_items, rle_merge = toy_merge \<rparr>"

text \<open>
  A sample instance of image \<open>i\<close> with annotation id \<open>n\<close>, box \<open>(10, 10, 50, 50)\<close>
  in a 1000 x 800 image, two keypoint slots, and the given keypoint count, crowd flag and
  region descriptor.
\<close>

definition sample_inst ::
  "int \<Rightarrow> int \<Rightarrow> int \<Rightarrow> int \<Rightarrow> toy_seg option \<Rightarrow> toy_seg inst_info" where
  "sample_inst i n nk crowd seg =
     \<lparr> image_id = i, image_file = ''img.jpg'', image_shape = (800, 1000, 3),
       bbox = (10, 10, 50, 50), bbox_score = 1,
       keypoints = [(12, 14), (0, 0)], keypoints_visible = [1, 0], inst_id = n,
       num_keypoints = nk, iscrowd = crowd, segmentation = seg, sigmas = [0.5, 0.5] \<rparr>"

definition sample_det_info :: "int \<Rightarrow> real \<Rightarrow> det_info" where
  "sample_det_info n score =
     \<lparr> image_id = 1, image_file = ''img.jpg'', image_shape = (800, 1000, 3),
       bbox = (10, 10, 50, 50), bbox_score = score,
       keypoints = [(0, 0), (0, 0)], keypoints_visible = [1, 1], inst_id = n \<rparr>"

definition sample_meta :: metainfo where
  "sample_meta = \<lparr> meta_sigmas = [0.5, 0.5], meta_num_keypoints = 2 \<rparr>"

definition sample_img :: raw_img where
  "sample_img = \<lparr> file_name = ''img.jpg'', width = 1000, height = 800 \<rparr>"

definition sample_ann :: "box \<Rightarrow> int \<Rightarrow> int option \<Rightarrow> toy_seg raw_ann" where
  "sample_ann b n crowd =
     \<lparr> ann_bbox = b, ann_keypoints = [12, 14, 2, 0, 0, 0], ann_num_keypoints = Some 1,
       ann_iscrowd = crowd, ann_segmentation = None, ann_image_id = 1, ann_id = n \<rparr>"

text \<open>
  A sample run: one annotation file with one image and three annotations (not crowd,
  crowd, no crowd flag), and one detection file with two detections (category 1 and 2).
\<close>

definition sample_coco :: "toy_seg coco" where
  "sample_coco =
     \<lparr> coco_imgs = [(1, sample_img)],
       coco_anns = [sample_ann (10, 10, 50, 50) 1 (Some 0),
                    sample_ann (10, 10, 50, 50) 2 (Some 1),
                    sample_ann (20, 20, 30, 30) 3 None] \<rparr>"

definition sample_dets :: "det list" where
  "sample_dets =
     [\<lparr> det_image_id = 1, det_category_id = 1, det_bbox = [-5, 10, 2000, 50],
        det_score = 0.9 \<rparr>,
      \<lparr> det_image_id = 1, det_category_id = 2, det_bbox = [1, 2, 3, 4], det_score = 0.8 \<rparr>]"

definition sample_world :: "toy_seg world" where
  "sample_world =
     \<lparr> coco_files = (\<lambda>path. if path = ''ann.json'' then Some sample_coco else None),
       det_files = (\<lambda>path. if path = ''det.json'' then Some sample_dets else None) \<rparr>"

definition sample_config :: "string \<Rightarrow> string option \<Rightarrow> config" where
  "sample_config mode bf =
     \<lparr> ann_file = ''ann.json'', bbox_file = bf, data_mode = mode,
       filter_cfg = Some [(''bbox_score_thr'', 0.5)], test_mode = True, lazy_init = False,
       img_prefix = ''data'', metainfo = sample_meta \<rparr>"

section \<open>Verified properties\<close>

subsection \<open>Auxiliary lemmas\<close>

lemma reshape_triples_some: "(reshape_triples xs \<noteq> None) = (length xs mod 3 = 0)"
  by (induction xs rule: reshape_triples.induct) (auto split: option.splits)

lemma is_valid_spec: "is_valid_instance d = (\<not> spec_invalid d)"
  by (auto simp: is_valid_instance_def spec_invalid_def split: prod.splits)

lemma is_valid_fun: "is_valid_instance = (\<lambda>d. \<not> spec_invalid d)"
  by (rule ext) (rule is_valid_spec)

lemma not_valid_fun: "(\<lambda>d. \<not> is_valid_instance d) = spec_invalid"
  by (rule ext) (simp add: is_valid_spec)

lemma parse_data_info_bbox:
  assumes "length (ann_keypoints ann) mod 3 = 0" and "ann_bbox ann = (x, y, w, h)"
  shows "\<exists>d. parse_data_info pre meta ann img = Inr d
           \<and> bbox d = (np_clip x 0 (of_int (width img - 1)),
                       np_clip y 0 (of_int (height img - 1)),
                       np_clip (x + w) 0 (of_int (width img - 1))
                         - np_clip x 0 (of_int (width img - 1)),
                       np_clip (y + h) 0 (of_int (height img - 1))
                         - np_clip y 0 (of_int (height img - 1)))
           \<and> sigmas d = meta_sigmas meta
           \<and> iscrowd d = (case ann_iscrowd ann of None \<Rightarrow> 0 | Some c \<Rightarrow> c)"
proof -
  from assms(1) obtain ts where "reshape_triples (ann_keypoints ann) = Some ts"
    using reshape_triples_some[of "ann_keypoints ann"] by auto
  then show ?thesis
    using assms(2) by (simp add: parse_data_info_def Let_def)
qed

lemma np_clip_bounds: "0 \<le> hi \<Longrightarrow> 0 \<le> np_clip a 0 hi \<and> np_clip a 0 hi \<le> hi"
  by (auto simp: np_clip_def)

lemma clipped_width_nonpos:
  "a + l \<le> 0 \<or> hi \<le> a \<Longrightarrow> np_clip (a + l) 0 hi - np_clip a 0 hi \<le> 0"
  by (auto simp: np_clip_def min_def max_def)

lemma filterfalse_total:
  "(\<And>x. pred x = Inr (q x)) \<Longrightarrow> filterfalse pred xs = Inr (filter (\<lambda>x. \<not> q x) xs)"
  by (induction xs) auto

subsection \<open>Instance Validator\<close>

text \<open>
  Claim C1. An instance is valid exactly when none of the four invalidity conditions of
  the specification holds (crowd flag truthy, zero keypoints, box width at most 0, box
  height at most 0), and both assemblers use this predicate: the Topdown Assembler keeps
  the records for which no condition holds; the Bottomup Assembler skips a group exactly
  when no record of it passes, concatenates the records that pass, and builds the mask
  from the records that do not.
\<close>

theorem validator_single_predicate:
  "(is_valid_instance d \<longleftrightarrow> \<not> spec_invalid d)
   \<and> get_topdown_data_infos dl = filter (\<lambda>d. \<not> spec_invalid d) dl
   \<and> (aggregate_group lib k grp = None \<longleftrightarrow> filter (\<lambda>d. \<not> spec_invalid d) grp = [])
   \<and> (\<forall>a. aggregate_group lib k grp = Some (Inr a) \<longrightarrow>
          agg_id a = map inst_id (filter (\<lambda>d. \<not> spec_invalid d) grp)
          \<and> (case agg_image_shape a of (img_h, img_w, ch) \<Rightarrow>
               mask_invalid_rle a =
                 rle_merge lib (invalid_rles lib img_h img_w (filter spec_invalid grp) [])))"
proof -
  have 1: "get_topdown_data_infos dl = filter (\<lambda>d. \<not> spec_invalid d) dl"
    by (simp add: get_topdown_data_infos_def is_valid_fun)
  have 2: "aggregate_group lib k grp = None \<longleftrightarrow> filter (\<lambda>d. \<not> spec_invalid d) grp = []"
    unfolding aggregate_group_def Let_def is_valid_fun by (simp split: list.splits)
  have 3: "agg_id a = map inst_id (filter (\<lambda>d. \<not> spec_invalid d) grp)
          \<and> (case agg_image_shape a of (img_h, img_w, ch) \<Rightarrow>
               mask_invalid_rle a =
                 rle_merge lib (invalid_rles lib img_h img_w (filter spec_invalid grp) []))"
    if "aggregate_group lib k grp = Some (Inr a)" for a
    using that unfolding aggregate_group_def Let_def not_valid_fun unfolding is_valid_fun
    by (auto split: list.splits sum.splits prod.splits)
  show ?thesis using is_valid_spec 1 2 3 by blast
qed


theorem validator_single_predicate_witness:
  "is_valid_instance (sample_inst 1 7 5 0 None)
   \<and> \<not> is_valid_instance (sample_inst 1 8 5 1 None)
   \<and> get_topdown_data_infos [sample_inst 1 7 5 0 None, sample_inst 1 8 5 1 None]
       = [sample_inst 1 7 5 0 None]
   \<and> aggregate_group toy_lib 1 [sample_inst 1 8 5 1 None] = None
   \<and> map_option (map_sum id agg_id)
        (aggregate_group toy_lib 1 [sample_inst 1 7 5 0 None, sample_inst 1 8 5 1 None])
       = Some (Inr [7])"
  using validator_single_predicate
          [of "sample_inst 1 7 5 0 None"
              "[sample_inst 1 7 5 0 None, sample_inst 1 8 5 1 None]"
              toy_lib 1 "[sample_inst 1 8 5 1 None]"]
        validator_single_predicate
          [of "sample_inst 1 8 5 1 None" "[]" toy_lib 1
              "[sample_inst 1 7 5 0 None, sample_inst 1 8 5 1 None]"]
  by (simp add: spec_invalid_def sample_inst_def aggregate_group_def np_concatenate_def
        is_valid_instance_def Let_def)

subsection \<open>Geometry Normalizer\<close>

text \<open>
  Claim C2, as amended. For an annotation with box \<open>(x, y, w, h)\<close> whose keypoint list has
  a length divisible by 3, \<open>parse_data_info\<close> returns a record (no error, whatever the
  sign of the derived width and height) whose box is \<open>(x1, y1, x2 - x1, y2 - y1)\<close> with
  the corners clipped by \<open>np_clip\<close>, which lie in \<open>[0, dim - 1]\<close> when the image
  dimension is at least 1. A source box outside the image on the horizontal axis gets a
  width at most 0, one outside on the vertical axis a height at most 0; so a box fully
  outside the image has a width or a height at most 0 (not necessarily both), and the
  validator marks the record invalid whatever its keypoints are.
\<close>

theorem box_normalization:
  assumes "length (ann_keypoints ann) mod 3 = 0" and "ann_bbox ann = (x, y, w, h)"
  shows "\<exists>d x1 y1 x2 y2.
           parse_data_info pre meta ann img = Inr d
           \<and> x1 = np_clip x 0 (of_int (width img - 1))
           \<and> y1 = np_clip y 0 (of_int (height img - 1))
           \<and> x2 = np_clip (x + w) 0 (of_int (width img - 1))
           \<and> y2 = np_clip (y + h) 0 (of_int (height img - 1))
           \<and> bbox d = (x1, y1, x2 - x1, y2 - y1)
           \<and> (1 \<le> width img \<longrightarrow>
                 0 \<le> x1 \<and> x1 \<le> of_int (width img - 1)
                 \<and> 0 \<le> x2 \<and> x2 \<le> of_int (width img - 1))
           \<and> (1 \<le> height img \<longrightarrow>
                 0 \<le> y1 \<and> y1 \<le> of_int (height img - 1)
                 \<and> 0 \<le> y2 \<and> y2 \<le> of_int (height img - 1))
           \<and> (x + w \<le> 0 \<or> of_int (width img) - 1 \<le> x \<longrightarrow> x2 - x1 \<le> 0)
           \<and> (y + h \<le> 0 \<or> of_int (height img) - 1 \<le> y \<longrightarrow> y2 - y1 \<le> 0)
           \<and> (box_outside_image (x, y, w, h) (width img) (height img) \<longrightarrow>
                 (x2 - x1 \<le> 0 \<or> y2 - y1 \<le> 0) \<and> \<not> is_valid_instance d)"
proof -
  from parse_data_info_bbox[OF assms, of pre meta img]
  obtain d where d: "parse_data_info pre meta ann img = Inr d"
    and b: "bbox d = (np_clip x 0 (of_int (width img - 1)),
                       np_clip y 0 (of_int (height img - 1)),
                       np_clip (x + w) 0 (of_int (width img - 1))
                         - np_clip x 0 (of_int (width img - 1)),
                       np_clip (y + h) 0 (of_int (height img - 1))
                         - np_clip y 0 (of_int (height img - 1)))"
    by blast
  have wx: "x + w \<le> 0 \<or> of_int (width img) - 1 \<le> x \<Longrightarrow>
        np_clip (x + w) 0 (of_int (width img - 1)) - np_clip x 0 (of_int (width img - 1)) \<le> 0"
    using clipped_width_nonpos[of x w "of_int (width img - 1)"] by simp
  have hy: "y + h \<le> 0 \<or> of_int (height img) - 1 \<le> y \<Longrightarrow>
        np_clip (y + h) 0 (of_int (height img - 1)) - np_clip y 0 (of_int (height img - 1)) \<le> 0"
    using clipped_width_nonpos[of y h "of_int (height img - 1)"] by simp
  have bx: "1 \<le> width img \<Longrightarrow> 0 \<le> np_clip a 0 (of_int (width img - 1))
              \<and> np_clip a 0 (of_int (width img - 1)) \<le> of_int (width img - 1)" for a
    using np_clip_bounds[of "of_int (width img - 1)" a] by simp
  have bY: "1 \<le> height img \<Longrightarrow> 0 \<le> np_clip a 0 (of_int (height img - 1))
              \<and> np_clip a 0 (of_int (height img - 1)) \<le> of_int (height img - 1)" for a
    using np_clip_bounds[of "of_int (height img - 1)" a] by simp
  have out: "box_outside_image (x, y, w, h) (width img) (height img) \<Longrightarrow>
      (np_clip (x + w) 0 (of_int (width img - 1)) - np_clip x 0 (of_int (width img - 1)) \<le> 0
       \<or> np_clip (y + h) 0 (of_int (height img - 1)) - np_clip y 0 (of_int (height img - 1)) \<le> 0)"
    using wx hy by (auto simp: box_outside_image_def)
  have inv: "box_outside_image (x, y, w, h) (width img) (height img) \<Longrightarrow> \<not> is_valid_instance d"
    using out b by (auto simp: is_valid_instance_def)
  show ?thesis
    using d b wx hy bx bY out inv by (intro exI[of _ d]) simp
qed

theorem box_normalization_witness:
  "box_outside_image (2000, 900, 20, 20) 1000 800
   \<and> map_sum id bbox
        (parse_data_info ''data'' sample_meta (sample_ann (2000, 900, 20, 20) 1 None) sample_img)
       = Inr (999, 799, 0, 0)
   \<and> map_sum id is_valid_instance
        (parse_data_info ''data'' sample_meta (sample_ann (2000, 900, 20, 20) 1 None) sample_img)
       = Inr False"
  using box_normalization
          [of "sample_ann (2000, 900, 20, 20) 1 None" 2000 900 20 20 "''data''" sample_meta
              sample_img]
  by (auto simp: sample_ann_def sample_img_def box_outside_image_def np_clip_def)

theorem box_outside_counterexample:
  "box_outside_image (2000, 10, 20, 20) 1000 800
   \<and> map_sum id bbox
        (parse_data_info ''data'' sample_meta (sample_ann (2000, 10, 20, 20) 1 None) sample_img)
       = Inr (999, 10, 0, 20)
   \<and> \<not> ((20::real) \<le> 0)"
  by (simp add: box_outside_image_def parse_data_info_def sample_ann_def sample_img_def
        sample_meta_def np_clip_def Let_def)

subsection \<open>Post-Filter\<close>

text \<open>
  Claim C7. Without a filter configuration, or with one that has no key
  \<^verbatim>\<open>bbox_score_thr\<close>, \<open>filter_data\<close> returns the record list unchanged; with a
  threshold \<open>thr\<close> (in topdown mode, the mode of instance-level records) it returns the
  records whose score is at least \<open>thr\<close>, in their order.
\<close>

theorem post_filter:
  "filter_data score_below mode None dl = Inr dl
   \<and> (map_of fc ''bbox_score_thr'' = None \<longrightarrow>
        filter_data score_below mode (Some fc) dl = Inr dl)
   \<and> (map_of fc ''bbox_score_thr'' = Some thr \<longrightarrow>
        filter_data score_below ''topdown'' (Some fc) dl
          = Inr (filter (\<lambda>ann. thr \<le> bbox_score ann) dl))"
proof -
  have "filterfalse (\<lambda>ann. score_below ann thr) dl = Inr (filter (\<lambda>ann. \<not> bbox_score ann < thr) dl)"
    by (rule filterfalse_total) (simp add: score_below_def)
  then show ?thesis
    by (simp add: filter_data_def not_less)
qed

theorem post_filter_witness:
  "filter_data score_below ''topdown'' (Some [(''bbox_score_thr'', 0.5)])
     [sample_det_info 0 0.9, sample_det_info 1 0.4, sample_det_info 2 0.6]
   = Inr [sample_det_info 0 0.9, sample_det_info 2 0.6]
   \<and> filter_data score_below ''topdown'' (Some [(''other_key'', 3)])
       [sample_det_info 0 0.9, sample_det_info 1 0.4] 
     = Inr [sample_det_info 0 0.9, sample_det_info 1 0.4]"
  using post_filter[of "''topdown''" "[sample_det_info 0 0.9, sample_det_info 1 0.4, sample_det_info 2 0.6]"
           "[(''bbox_score_thr'', 0.5)]" "0.5"]
        post_filter[of "''topdown''" "[sample_det_info 0 0.9, sample_det_info 1 0.4]"
           "[(''other_key'', 3)]" 0]
  by (simp add: sample_det_info_def)

subsection \<open>Bottomup Assembler\<close>

lemma groupby_concat: "concat (map snd (groupby f xs)) = xs"
  by (induction f xs rule: groupby.induct) simp_all

lemma groupby_group:
  "(k, g) \<in> set (groupby f xs) \<Longrightarrow> g \<noteq> [] \<and> (\<forall>x\<in>set g. f x = k) \<and> set g \<subseteq> set xs"
proof (induction f xs rule: groupby.induct)
  case (1 f)
  then show ?case by simp
next
  case (2 f x xs)
  from "2.prems" consider
      "k = f x" "g = x # takeWhile (\<lambda>y. f y = f x) xs"
    | "(k, g) \<in> set (groupby f (dropWhile (\<lambda>y. f y = f x) xs))"
    by auto
  then show ?case
  proof cases
    case 1
    then show ?thesis by (auto dest: set_takeWhileD)
  next
    case 2
    from "2.IH"[OF this] show ?thesis by (auto dest: set_dropWhileD)
  qed
qed

lemma remdups_adj_dropWhile:
  "remdups_adj (a # ys) = a # remdups_adj (dropWhile (\<lambda>y. y = a) ys)"
  by (induction ys) auto

lemma groupby_keys: "map fst (groupby f xs) = remdups_adj (map f xs)"
proof (induction f xs rule: groupby.induct)
  case (1 f)
  show ?case by simp
next
  case (2 f x xs)
  have "map f (dropWhile (\<lambda>y. f y = f x) xs) = dropWhile (\<lambda>y. y = f x) (map f xs)"
    by (simp add: dropWhile_map comp_def)
  with "2.IH" show ?case
    by (simp add: remdups_adj_dropWhile[of "f x" "map f xs"])
qed

lemma np_concatenate_uniform:
  "seq \<noteq> [] \<Longrightarrow> \<forall>a\<in>set seq. length a = K \<Longrightarrow> np_concatenate seq = Inr seq"
  by (cases seq) (auto simp: np_concatenate_def list_all_iff)

lemma aggregate_group_uniform:
  assumes u: "\<forall>d\<in>set grp. length (keypoints d) = K \<and> length (keypoints_visible d) = K"
    and v: "filter is_valid_instance grp = first # rest"
  shows "aggregate_group lib k grp =
           Some (Inr \<lparr> agg_image_id = k,
                       agg_image_file = image_file first,
                       agg_image_shape = image_shape first,
                       agg_sigmas = sigmas first,
                       agg_bbox = map bbox (first # rest),
                       agg_bbox_score = map bbox_score (first # rest),
                       agg_num_keypoints = map num_keypoints (first # rest),
                       agg_keypoints = map keypoints (first # rest),
                       agg_keypoints_visible = map keypoints_visible (first # rest),
                       agg_iscrowd = map iscrowd (first # rest),
                       agg_segmentation = map segmentation (first # rest),
                       agg_id = map inst_id (first # rest),
                       mask_invalid_rle =
                         rle_merge lib
                           (invalid_rles lib (fst (image_shape first))
                              (fst (snd (image_shape first)))
                              (filter (\<lambda>d. \<not> is_valid_instance d) grp) []) \<rparr>)"
proof -
  have sub: "set (first # rest) \<subseteq> set grp"
    using v by (metis filter_is_subset)
  have k1: "np_concatenate (map keypoints (first # rest)) = Inr (map keypoints (first # rest))"
    by (rule np_concatenate_uniform[where K = K]) (use u sub in auto)
  have k2: "np_concatenate (map keypoints_visible (first # rest))
              = Inr (map keypoints_visible (first # rest))"
    by (rule np_concatenate_uniform[where K = K]) (use u sub in auto)
  show ?thesis
    unfolding aggregate_group_def Let_def v using k1 k2
    by (simp split: prod.splits)
qed

lemma aggregate_group_cases:
  assumes u: "\<forall>d\<in>set grp. length (keypoints d) = K \<and> length (keypoints_visible d) = K"
  shows "(filter is_valid_instance grp = [] \<and> aggregate_group lib k grp = None)
         \<or> (filter is_valid_instance grp \<noteq> []
             \<and> (\<exists>a. aggregate_group lib k grp = Some (Inr a) \<and> agg_image_id a = k))"
proof (cases "filter is_valid_instance grp")
  case Nil
  then show ?thesis by (simp add: aggregate_group_def)
next
  case (Cons first rest)
  from aggregate_group_uniform[OF u Cons, of lib k] Cons show ?thesis by auto
qed

lemma bottomup_loop_ids:
  assumes "\<forall>(k, g)\<in>set groups. \<forall>d\<in>set g.
             length (keypoints d) = K \<and> length (keypoints_visible d) = K"
  shows "\<exists>out. bottomup_loop lib groups = Inr out
           \<and> map agg_image_id out
               = map fst (filter (\<lambda>(k, g). filter is_valid_instance g \<noteq> []) groups)"
  using assms
proof (induction groups)
  case Nil
  show ?case by simp
next
  case (Cons kg groups)
  obtain k g where kg: "kg = (k, g)" by (cases kg)
  from Cons.prems kg
  have u: "\<forall>d\<in>set g. length (keypoints d) = K \<and> length (keypoints_visible d) = K"
    by auto
  from Cons.prems have "\<forall>(k, g)\<in>set groups. \<forall>d\<in>set g.
             length (keypoints d) = K \<and> length (keypoints_visible d) = K" by auto
  from Cons.IH[OF this] obtain out where out: "bottomup_loop lib groups = Inr out"
    "map agg_image_id out
       = map fst (filter (\<lambda>(k, g). filter is_valid_instance g \<noteq> []) groups)"
    by blast
  from aggregate_group_cases[OF u, of lib k] show ?case
    using out kg by auto
qed


lemma bottomup_loop_member:
  "bottomup_loop lib groups = Inr out \<Longrightarrow> (k, g) \<in> set groups \<Longrightarrow>
   aggregate_group lib k g = Some (Inr a) \<Longrightarrow> a \<in> set out"
proof (induction groups arbitrary: out)
  case Nil
  then show ?case by simp
next
  case (Cons kg groups)
  obtain k' g' where kg: "kg = (k', g')" by (cases kg)
  show ?case
  proof (cases "(k, g) = (k', g')")
    case True
    with Cons.prems kg show ?thesis
      by (auto split: sum.splits)
  next
    case False
    with Cons.prems kg have m: "(k, g) \<in> set groups" by auto
    from Cons.prems(1) kg show ?thesis
      using Cons.IH[OF _ m Cons.prems(3)]
      by (auto split: option.splits sum.splits)
  qed
qed

lemma valid_group_ids:
  "set (map fst (filter (\<lambda>(k, g). filter is_valid_instance g \<noteq> []) (groupby image_id dl)))
     = image_id ` {d \<in> set dl. is_valid_instance d}" (is "?L = ?R")
proof
  show "?L \<subseteq> ?R"
  proof
    fix i assume "i \<in> ?L"
    then obtain g where g: "(i, g) \<in> set (groupby image_id dl)"
      and ne: "filter is_valid_instance g \<noteq> []" by auto
    from ne obtain d where d: "d \<in> set g" "is_valid_instance d"
      by (auto simp: filter_empty_conv)
    from groupby_group[OF g] d have "image_id d = i" "d \<in> set dl" by auto
    with d show "i \<in> ?R" by auto
  qed
  show "?R \<subseteq> ?L"
  proof
    fix i assume "i \<in> ?R"
    then obtain d where d: "d \<in> set dl" "is_valid_instance d" "image_id d = i" by auto
    from d(1) have "d \<in> set (concat (map snd (groupby image_id dl)))"
      by (simp add: groupby_concat)
    then obtain k g where g: "(k, g) \<in> set (groupby image_id dl)" "d \<in> set g" by auto
    from groupby_group[OF g(1)] g(2) d(3) have "k = i" by auto
    moreover from g(2) d(2) have "filter is_valid_instance g \<noteq> []"
      by (auto simp: filter_empty_conv)
    ultimately show "i \<in> ?L" using g(1) by force
  qed
qed

lemma get_bottomup_total:
  assumes u: "\<forall>d\<in>set dl. length (keypoints d) = K \<and> length (keypoints_visible d) = K"
  shows "\<exists>out. get_bottomup_data_infos lib dl = Inr out
           \<and> map agg_image_id out
               = map fst (filter (\<lambda>(k, g). filter is_valid_instance g \<noteq> [])
                            (groupby image_id dl))"
proof -
  have "\<forall>(k, g)\<in>set (groupby image_id dl). \<forall>d\<in>set g.
          length (keypoints d) = K \<and> length (keypoints_visible d) = K"
    using u groupby_group[of _ _ image_id dl] by blast
  from bottomup_loop_ids[OF this, of lib] show ?thesis
    by (simp add: get_bottomup_data_infos_def)
qed

text \<open>
  Claim C3, as amended. When all records have the same number of keypoint slots (so that
  \<^verbatim>\<open>np.concatenate\<close> cannot raise), \<open>get_bottomup_data_infos\<close> returns a list of
  aggregates whose image ids are exactly the image ids that have a valid instance; an
  image all of whose instances are invalid has no aggregate. When the records of each
  image are contiguous in the input, there is exactly one aggregate per such image id:
  the ids of the aggregates are distinct, and their number is the number of distinct
  image ids with a valid instance. (The grouping is by runs of consecutive records, so
  for other inputs an image can get several aggregates.)
\<close>

theorem bottomup_one_record_per_image:
  assumes u: "\<forall>d\<in>set dl. length (keypoints d) = K \<and> length (keypoints_visible d) = K"
  shows "\<exists>out. get_bottomup_data_infos lib dl = Inr out
           \<and> set (map agg_image_id out) = image_id ` {d \<in> set dl. is_valid_instance d}
           \<and> (\<forall>i. (\<forall>d\<in>set dl. image_id d = i \<longrightarrow> \<not> is_valid_instance d)
                  \<longrightarrow> i \<notin> set (map agg_image_id out))
           \<and> (contiguous_by image_id dl \<longrightarrow>
                 distinct (map agg_image_id out)
                 \<and> length out = card (image_id ` {d \<in> set dl. is_valid_instance d}))"
proof -
  let ?groups = "groupby image_id dl"
  let ?sel = "filter (\<lambda>(k, g). filter is_valid_instance g \<noteq> []) ?groups"
  from get_bottomup_total[OF u, of lib]
  obtain out where out: "get_bottomup_data_infos lib dl = Inr out"
    and ids: "map agg_image_id out = map fst ?sel" by blast
  have s: "set (map agg_image_id out) = image_id ` {d \<in> set dl. is_valid_instance d}"
    unfolding ids by (rule valid_group_ids)
  have z: "\<forall>i. (\<forall>d\<in>set dl. image_id d = i \<longrightarrow> \<not> is_valid_instance d)
                  \<longrightarrow> i \<notin> set (map agg_image_id out)"
    unfolding s by auto
  have c: "distinct (map agg_image_id out)
           \<and> length out = card (image_id ` {d \<in> set dl. is_valid_instance d})"
    if "contiguous_by image_id dl"
  proof -
    from that have "distinct (map fst ?groups)"
      by (simp add: contiguous_by_def groupby_keys)
    then have d: "distinct (map agg_image_id out)"
      unfolding ids by (rule distinct_map_filter)
    from distinct_card[OF d] s have "length out = card (image_id ` {d \<in> set dl. is_valid_instance d})"
      by simp
    with d show ?thesis by simp
  qed
  show ?thesis
    using out s z c by blast
qed

theorem bottomup_one_record_per_image_witness:
  "contiguous_by image_id
     [sample_inst 1 7 5 0 None, sample_inst 1 8 5 1 None, sample_inst 2 9 0 0 None,
      sample_inst 3 10 4 0 None]
   \<and> map_sum id (map agg_image_id)
        (get_bottomup_data_infos toy_lib
           [sample_inst 1 7 5 0 None, sample_inst 1 8 5 1 None, sample_inst 2 9 0 0 None,
            sample_inst 3 10 4 0 None])
       = Inr [1, 3]"
proof -
  let ?dl = "[sample_inst 1 7 5 0 None, sample_inst 1 8 5 1 None, sample_inst 2 9 0 0 None,
      sample_inst 3 10 4 0 None]"
  have c: "contiguous_by image_id ?dl"
    by (simp add: contiguous_by_def sample_inst_def)
  have u: "\<forall>d\<in>set ?dl. length (keypoints d) = 2 \<and> length (keypoints_visible d) = 2"
    by (simp add: sample_inst_def)
  have e: "map_sum id (map agg_image_id) (get_bottomup_data_infos toy_lib ?dl) = Inr [1, 3]"
    by (simp add: get_bottomup_data_infos_def sample_inst_def aggregate_group_def
          is_valid_instance_def np_concatenate_def Let_def)
  from bottomup_one_record_per_image[OF u, of toy_lib] c e show ?thesis by simp
qed

theorem bottomup_noncontiguous_counterexample:
  "map_sum id (map agg_image_id)
     (get_bottomup_data_infos toy_lib
        [sample_inst 1 7 5 0 None, sample_inst 2 8 5 0 None, sample_inst 1 9 5 0 None])
     = Inr [1, 2, 1]
   \<and> remdups (map image_id (filter is_valid_instance
        [sample_inst 1 7 5 0 None, sample_inst 2 8 5 0 None, sample_inst 1 9 5 0 None]))
     = [2, 1]"
  by (simp add: get_bottomup_data_infos_def sample_inst_def aggregate_group_def
        is_valid_instance_def np_concatenate_def Let_def)


text \<open>
  Claim C4. For a group \<open>(k, grp)\<close> of the grouping by image id with valid instances
  \<open>first # rest\<close> (all records with the same number of keypoint slots), the Bottomup
  Assembler emits an aggregate whose \<open>image_id\<close>, \<open>image_file\<close>, \<open>image_shape\<close> and
  \<open>sigmas\<close> are those of the first valid instance, and whose other per-instance fields
  are the fields of the valid instances, in their order: each has as many entries as
  there are valid instances.
\<close>

theorem bottomup_aggregate_fields:
  assumes u: "\<forall>d\<in>set dl. length (keypoints d) = K \<and> length (keypoints_visible d) = K"
    and g: "(k, grp) \<in> set (groupby image_id dl)"
    and v: "filter is_valid_instance grp = first # rest"
  shows "\<exists>out a. get_bottomup_data_infos lib dl = Inr out \<and> a \<in> set out
           \<and> aggregate_group lib k grp = Some (Inr a)
           \<and> agg_image_id a = image_id first
           \<and> agg_image_file a = image_file first
           \<and> agg_image_shape a = image_shape first
           \<and> agg_sigmas a = sigmas first
           \<and> agg_bbox a = map bbox (first # rest)
           \<and> agg_bbox_score a = map bbox_score (first # rest)
           \<and> agg_num_keypoints a = map num_keypoints (first # rest)
           \<and> agg_keypoints a = map keypoints (first # rest)
           \<and> agg_keypoints_visible a = map keypoints_visible (first # rest)
           \<and> agg_iscrowd a = map iscrowd (first # rest)
           \<and> agg_segmentation a = map segmentation (first # rest)
           \<and> agg_id a = map inst_id (first # rest)
           \<and> length (agg_bbox a) = length (first # rest)
           \<and> length (agg_bbox_score a) = length (first # rest)
           \<and> length (agg_num_keypoints a) = length (first # rest)
           \<and> length (agg_keypoints a) = length (first # rest)
           \<and> length (agg_keypoints_visible a) = length (first # rest)
           \<and> length (agg_iscrowd a) = length (first # rest)
           \<and> length (agg_segmentation a) = length (first # rest)
           \<and> length (agg_id a) = length (first # rest)"
proof -
  from get_bottomup_total[OF u, of lib]
  obtain out where out: "get_bottomup_data_infos lib dl = Inr out" by blast
  from groupby_group[OF g] u
  have ug: "\<forall>d\<in>set grp. length (keypoints d) = K \<and> length (keypoints_visible d) = K"
    by blast
  note a = aggregate_group_uniform[OF ug v, of lib k]
  from out g a have m: "\<lparr> agg_image_id = k,
                       agg_image_file = image_file first,
                       agg_image_shape = image_shape first,
                       agg_sigmas = sigmas first,
                       agg_bbox = map bbox (first # rest),
                       agg_bbox_score = map bbox_score (first # rest),
                       agg_num_keypoints = map num_keypoints (first # rest),
                       agg_keypoints = map keypoints (first # rest),
                       agg_keypoints_visible = map keypoints_visible (first # rest),
                       agg_iscrowd = map iscrowd (first # rest),
                       agg_segmentation = map segmentation (first # rest),
                       agg_id = map inst_id (first # rest),
                       mask_invalid_rle =
                         rle_merge lib
                           (invalid_rles lib (fst (image_shape first))
                              (fst (snd (image_shape first)))
                              (filter (\<lambda>d. \<not> is_valid_instance d) grp) []) \<rparr> \<in> set out"
    unfolding get_bottomup_data_infos_def by (rule bottomup_loop_member)
  have "first \<in> set (filter is_valid_instance grp)" unfolding v by simp
  then have "first \<in> set grp" by simp
  with groupby_group[OF g] have k: "image_id first = k" by blast
  show ?thesis
    by (rule exI[of _ out], rule exI, intro conjI, rule out, rule m, rule a)
       (simp_all add: k)
qed

lemma invalid_rles_concat:
  "invalid_rles lib img_h img_w ds rles
     = rles @ concat (map (spec_regions lib img_h img_w) ds)"
  by (induction ds arbitrary: rles) (auto simp: spec_regions_def split: option.splits)

text \<open>
  Claim C5. The \<open>mask_invalid_rle\<close> of a group's aggregate is the merge of the regions
  of \<open>spec_regions\<close> over the invalid instances of the group, in order: for an invalid
  instance with a present descriptor, one mask if it is a crowd object, all parts of its
  region if it is not crowd and has zero keypoints. An invalid instance that is neither
  crowd nor zero-keypoint contributes nothing, and a group without contributions gets the
  merge of the empty list.
\<close>

theorem bottomup_invalid_mask:
  assumes "aggregate_group lib k grp = Some (Inr a)"
  shows "\<exists>img_h img_w ch.
           agg_image_shape a = (img_h, img_w, ch)
           \<and> mask_invalid_rle a
               = rle_merge lib
                   (concat (map (spec_regions lib img_h img_w)
                              (filter (\<lambda>d. \<not> is_valid_instance d) grp)))
           \<and> (\<forall>d\<in>set grp. \<not> is_valid_instance d \<and> iscrowd d = 0 \<and> num_keypoints d \<noteq> 0
                 \<longrightarrow> spec_regions lib img_h img_w d = [])
           \<and> ((\<forall>d\<in>set grp. \<not> is_valid_instance d \<longrightarrow> spec_regions lib img_h img_w d = [])
                 \<longrightarrow> mask_invalid_rle a = rle_merge lib [])"
proof -
  obtain img_h img_w ch where sh: "agg_image_shape a = (img_h, img_w, ch)"
    by (cases "agg_image_shape a")
  from assms sh have m: "mask_invalid_rle a
      = rle_merge lib (invalid_rles lib img_h img_w
                         (filter (\<lambda>d. \<not> is_valid_instance d) grp) [])"
    unfolding aggregate_group_def Let_def
    by (auto split: list.splits sum.splits prod.splits)
  have m': "mask_invalid_rle a
               = rle_merge lib
                   (concat (map (spec_regions lib img_h img_w)
                              (filter (\<lambda>d. \<not> is_valid_instance d) grp)))"
    unfolding m invalid_rles_concat by simp
  have n: "\<forall>d\<in>set grp. \<not> is_valid_instance d \<and> iscrowd d = 0 \<and> num_keypoints d \<noteq> 0
                 \<longrightarrow> spec_regions lib img_h img_w d = []"
    by (auto simp: spec_regions_def split: option.splits)
  have e: "mask_invalid_rle a = rle_merge lib []"
    if "\<forall>d\<in>set grp. \<not> is_valid_instance d \<longrightarrow> spec_regions lib img_h img_w d = []"
  proof -
    from that have "concat (map (spec_regions lib img_h img_w)
                              (filter (\<lambda>d. \<not> is_valid_instance d) grp)) = []"
      by (induction grp) auto
    with m' show ?thesis by simp
  qed
  show ?thesis using sh m' n e by blast
qed


theorem bottomup_aggregate_fields_witness:
  "map_option (map_sum id agg_id)
     (aggregate_group toy_lib 1
        [sample_inst 1 7 5 0 None, sample_inst 1 8 5 1 None, sample_inst 1 9 3 0 None])
     = Some (Inr [7, 9])
   \<and> map_option (map_sum id agg_num_keypoints)
     (aggregate_group toy_lib 1
        [sample_inst 1 7 5 0 None, sample_inst 1 8 5 1 None, sample_inst 1 9 3 0 None])
     = Some (Inr [5, 3])
   \<and> map_option (map_sum id agg_image_id)
     (aggregate_group toy_lib 1
        [sample_inst 1 7 5 0 None, sample_inst 1 8 5 1 None, sample_inst 1 9 3 0 None])
     = Some (Inr 1)"
proof -
  let ?dl = "[sample_inst 1 7 5 0 None, sample_inst 1 8 5 1 None, sample_inst 1 9 3 0 None]"
  have u: "\<forall>d\<in>set ?dl. length (keypoints d) = 2 \<and> length (keypoints_visible d) = 2"
    by (simp add: sample_inst_def)
  have g: "(1, ?dl) \<in> set (groupby image_id ?dl)"
    by (simp add: sample_inst_def)
  have v: "filter is_valid_instance ?dl = sample_inst 1 7 5 0 None # [sample_inst 1 9 3 0 None]"
    by (simp add: sample_inst_def is_valid_instance_def)
  from bottomup_aggregate_fields[OF u g v, of toy_lib]
  obtain a where "aggregate_group toy_lib 1 ?dl = Some (Inr a)"
    "agg_id a = map inst_id [sample_inst 1 7 5 0 None, sample_inst 1 9 3 0 None]"
    "agg_num_keypoints a = map num_keypoints [sample_inst 1 7 5 0 None, sample_inst 1 9 3 0 None]"
    "agg_image_id a = image_id (sample_inst 1 7 5 0 None)"
    by blast
  then show ?thesis by (simp add: sample_inst_def)
qed

theorem bottomup_invalid_mask_witness:
  "map_option (map_sum id mask_invalid_rle)
     (aggregate_group toy_lib 1
        [sample_inst 1 7 5 0 None,
         sample_inst 1 8 0 1 (Some (CrowdRegion [1, 2])),
         sample_inst 1 9 0 0 (Some (Polygons [[3], [4, 5]]))])
     = Some (Inr (Rle [1, 2, 3, 4, 5]))
   \<and> map_option (map_sum id mask_invalid_rle)
     (aggregate_group toy_lib 1 [sample_inst 1 7 5 0 None])
     = Some (Inr (Rle []))"
proof -
  let ?g1 = "[sample_inst 1 7 5 0 None,
         sample_inst 1 8 0 1 (Some (CrowdRegion [1, 2])),
         sample_inst 1 9 0 0 (Some (Polygons [[3], [4, 5]]))]"
  let ?g2 = "[sample_inst 1 7 5 0 None]"
  have "\<exists>a. aggregate_group toy_lib 1 ?g1 = Some (Inr a)"
    by (simp add: aggregate_group_def sample_inst_def is_valid_instance_def
          np_concatenate_def Let_def)
  then obtain a1 where a1: "aggregate_group toy_lib 1 ?g1 = Some (Inr a1)" by blast
  have "\<exists>a. aggregate_group toy_lib 1 ?g2 = Some (Inr a)"
    by (simp add: aggregate_group_def sample_inst_def is_valid_instance_def
          np_concatenate_def Let_def)
  then obtain a2 where a2: "aggregate_group toy_lib 1 ?g2 = Some (Inr a2)" by blast
  from bottomup_invalid_mask[OF a1]
  have m1: "mask_invalid_rle a1 = Rle [1, 2, 3, 4, 5]"
    by (auto simp: sample_inst_def is_valid_instance_def spec_regions_def toy_lib_def
          toy_merge_def)
  from bottomup_invalid_mask[OF a2]
  have m2: "mask_invalid_rle a2 = Rle []"
    by (auto simp: sample_inst_def is_valid_instance_def spec_regions_def toy_lib_def
          toy_merge_def)
  show ?thesis using a1 a2 m1 m2 by simp
qed

subsection \<open>Detection-Result Adapter\<close>

lemma take_four:
  "4 \<le> length xs \<Longrightarrow> take 4 xs = [xs ! 0, xs ! 1, xs ! 2, xs ! 3]"
proof -
  assume "4 \<le> length xs"
  then obtain a b c d rest where "xs = a # b # c # d # rest"
    by (auto simp: numeral_eq_Suc Suc_le_length_iff)
  then show ?thesis by simp
qed

lemma upt_shift: "map (\<lambda>j. i + int j) [0..<Suc n] = i # map (\<lambda>j. (i + 1) + int j) [0..<n]"
proof -
  have "[0..<Suc n] = 0 # map Suc [0..<n]"
    by (simp add: upt_conv_Cons map_Suc_upt del: upt_Suc)
  then show ?thesis by (simp add: comp_def del: upt_Suc)
qed

lemma detections_loop_spec:
  assumes "\<forall>d\<in>set dets. det_category_id d = 1 \<longrightarrow>
             (\<exists>img. loadImgs c (det_image_id d) = Inr img) \<and> 4 \<le> length (det_bbox d)"
  shows "\<exists>out. detections_loop pre meta c dets i acc = Inr (acc @ out)
           \<and> map image_id out = map det_image_id (filter (\<lambda>d. det_category_id d = 1) dets)
           \<and> map bbox out
               = map (\<lambda>d. (det_bbox d ! 0, det_bbox d ! 1, det_bbox d ! 2, det_bbox d ! 3))
                   (filter (\<lambda>d. det_category_id d = 1) dets)
           \<and> map bbox_score out = map det_score (filter (\<lambda>d. det_category_id d = 1) dets)
           \<and> (\<forall>r\<in>set out. keypoints r = replicate (meta_num_keypoints meta) (0, 0)
                 \<and> keypoints_visible r = replicate (meta_num_keypoints meta) 1)
           \<and> map inst_id out = map (\<lambda>j. i + int j) [0..<length out]"
  using assms
proof (induction dets arbitrary: i acc)
  case Nil
  show ?case by simp
next
  case (Cons d dets)
  from Cons.prems have wf: "\<forall>d\<in>set dets. det_category_id d = 1 \<longrightarrow>
             (\<exists>img. loadImgs c (det_image_id d) = Inr img) \<and> 4 \<le> length (det_bbox d)"
    by simp
  show ?case
  proof (cases "det_category_id d = 1")
    case False
    with Cons.IH[OF wf, of i acc] show ?thesis by simp
  next
    case True
    with Cons.prems obtain img where img: "loadImgs c (det_image_id d) = Inr img"
      and len: "4 \<le> length (det_bbox d)" by auto
    let ?r = "\<lparr> image_id = det_image_id d,
                image_file = osp_join pre (file_name img),
                image_shape = (height img, width img, 3),
                bbox = (det_bbox d ! 0, det_bbox d ! 1, det_bbox d ! 2, det_bbox d ! 3),
                bbox_score = det_score d,
                keypoints = replicate (meta_num_keypoints meta) (0, 0),
                keypoints_visible = replicate (meta_num_keypoints meta) 1,
                inst_id = i \<rparr>"
    from Cons.IH[OF wf, of "i + 1" "acc @ [?r]"]
    obtain out where out: "detections_loop pre meta c dets (i + 1) (acc @ [?r])
                             = Inr ((acc @ [?r]) @ out)"
      and f1: "map image_id out = map det_image_id (filter (\<lambda>d. det_category_id d = 1) dets)"
      and f2: "map bbox out
               = map (\<lambda>d. (det_bbox d ! 0, det_bbox d ! 1, det_bbox d ! 2, det_bbox d ! 3))
                   (filter (\<lambda>d. det_category_id d = 1) dets)"
      and f3: "map bbox_score out = map det_score (filter (\<lambda>d. det_category_id d = 1) dets)"
      and f4: "\<forall>r\<in>set out. keypoints r = replicate (meta_num_keypoints meta) (0, 0)
                 \<and> keypoints_visible r = replicate (meta_num_keypoints meta) 1"
      and f5: "map inst_id out = map (\<lambda>j. (i + 1) + int j) [0..<length out]"
      by blast
    have step: "detections_loop pre meta c (d # dets) i acc = Inr (acc @ (?r # out))"
      using True img take_four[OF len] out by simp
    have ids: "map inst_id (?r # out) = map (\<lambda>j. i + int j) [0..<length (?r # out)]"
      using f5 upt_shift[of i "length out"] by simp
    show ?thesis
      apply (rule exI[of _ "?r # out"])
      using step ids f1 f2 f3 f4 True by (simp del: upt_Suc)
  qed
qed

text \<open>
  Claim C6. For a list of detections in which every detection of category 1 names an
  image of the index and has at least 4 box values (and both files exist), the
  Detection-Result Adapter skips the detections whose category is not 1 and emits, for the
  others in input order, one record each: its box is the first 4 box values of the
  detection, unclipped; its score is the detection's score; its keypoints are K zero
  pairs and its visibilities K ones; the ids of the records are 0, 1, 2, ... in order.
\<close>

theorem detection_adapter:
  assumes "coco_files w ann = Some c" and "det_files w bf = Some dets"
    and "\<forall>d\<in>set dets. det_category_id d = 1 \<longrightarrow>
             (\<exists>img. loadImgs c (det_image_id d) = Inr img) \<and> 4 \<le> length (det_bbox d)"
  shows "\<exists>out. load_detection_results w pre meta ann bf = ([ann, bf], Inr out)
           \<and> length out = length (filter (\<lambda>d. det_category_id d = 1) dets)
           \<and> map image_id out = map det_image_id (filter (\<lambda>d. det_category_id d = 1) dets)
           \<and> map bbox out
               = map (\<lambda>d. (det_bbox d ! 0, det_bbox d ! 1, det_bbox d ! 2, det_bbox d ! 3))
                   (filter (\<lambda>d. det_category_id d = 1) dets)
           \<and> map bbox_score out = map det_score (filter (\<lambda>d. det_category_id d = 1) dets)
           \<and> (\<forall>r\<in>set out. keypoints r = replicate (meta_num_keypoints meta) (0, 0)
                 \<and> keypoints_visible r = replicate (meta_num_keypoints meta) 1)
           \<and> map inst_id out = map int [0..<length out]"
proof -
  from detections_loop_spec[OF assms(3), of pre meta 0 "[]"]
  obtain out where out: "detections_loop pre meta c dets 0 [] = Inr out"
      and f1: "map image_id out = map det_image_id (filter (\<lambda>d. det_category_id d = 1) dets)"
      and f2: "map bbox out
               = map (\<lambda>d. (det_bbox d ! 0, det_bbox d ! 1, det_bbox d ! 2, det_bbox d ! 3))
                   (filter (\<lambda>d. det_category_id d = 1) dets)"
      and f3: "map bbox_score out = map det_score (filter (\<lambda>d. det_category_id d = 1) dets)"
      and f4: "\<forall>r\<in>set out. keypoints r = replicate (meta_num_keypoints meta) (0, 0)
                 \<and> keypoints_visible r = replicate (meta_num_keypoints meta) 1"
      and f5: "map inst_id out = map (\<lambda>j. 0 + int j) [0..<length out]"
    by auto
  from f1 have l: "length out = length (filter (\<lambda>d. det_category_id d = 1) dets)"
    by (metis length_map)
  have r: "load_detection_results w pre meta ann bf = ([ann, bf], Inr out)"
    using assms(1,2) out by (simp add: load_detection_results_def)
  from f5 have f5': "map inst_id out = map int [0..<length out]" by simp
  show ?thesis using r l f1 f2 f3 f4 f5' by blast
qed

theorem detection_adapter_witness:
  "load_detection_results sample_world ''data'' sample_meta ''ann.json'' ''det.json''
     = ([''ann.json'', ''det.json''],
        Inr [\<lparr> image_id = 1, image_file = ''data/img.jpg'', image_shape = (800, 1000, 3),
               bbox = (-5, 10, 2000, 50), bbox_score = 0.9,
               keypoints = [(0, 0), (0, 0)], keypoints_visible = [1, 1], inst_id = 0 \<rparr>])"
proof -
  have wf: "\<forall>d\<in>set sample_dets. det_category_id d = 1 \<longrightarrow>
             (\<exists>img. loadImgs sample_coco (det_image_id d) = Inr img) \<and> 4 \<le> length (det_bbox d)"
    by (simp add: sample_dets_def sample_coco_def loadImgs_def)
  have a: "coco_files sample_world ''ann.json'' = Some sample_coco"
    and b: "det_files sample_world ''det.json'' = Some sample_dets"
    by (simp_all add: sample_world_def)
  from detection_adapter[OF a b wf, of "''data''" sample_meta]
  obtain out where "load_detection_results sample_world ''data'' sample_meta ''ann.json'' ''det.json''
             = ([''ann.json'', ''det.json''], Inr out)" "length out = 1"
    by (auto simp: sample_dets_def)
  then show ?thesis
    by (simp add: load_detection_results_def a b sample_dets_def sample_coco_def loadImgs_def
          sample_img_def sample_meta_def osp_join_def numeral_eq_Suc)
qed

subsection \<open>Configuration errors and the two load paths\<close>

text \<open>
  Claim C8, as amended. An invalid \<open>data_mode\<close>, a \<open>bbox_file\<close> outside topdown mode
  and a \<open>bbox_file\<close> without test mode are fatal errors of the constructor's own checks:
  the constructor returns them without calling the initializer of the base class (which
  does all loading), having touched no file. The error for a \<open>bbox_score_thr\<close> outside
  topdown mode is never raised by those checks: it is raised by \<open>filter_data\<close>, on
  whatever data list it is given.
\<close>

theorem config_errors:
  "(data_mode cfg \<noteq> ''topdown'' \<and> data_mode cfg \<noteq> ''bottomup'' \<longrightarrow>
      coco_dataset_init super_init cfg = ([], Inl InvalidDataMode))
   \<and> (data_mode cfg = ''bottomup'' \<and> bbox_file_set cfg \<longrightarrow>
      coco_dataset_init super_init cfg = ([], Inl BBoxFileNotTopdown))
   \<and> (data_mode cfg = ''topdown'' \<and> bbox_file_set cfg \<and> \<not> test_mode cfg \<longrightarrow>
      coco_dataset_init super_init cfg = ([], Inl BBoxFileNotTestMode))
   \<and> init_checks cfg \<noteq> Some BBoxScoreThrNotTopdown
   \<and> (map_of fc ''bbox_score_thr'' = Some thr \<and> mode \<noteq> ''topdown'' \<longrightarrow>
      filter_data below mode (Some fc) dl = Inl BBoxScoreThrNotTopdown)"
proof -
  have 1: "data_mode cfg \<noteq> ''topdown'' \<and> data_mode cfg \<noteq> ''bottomup'' \<longrightarrow>
      coco_dataset_init super_init cfg = ([], Inl InvalidDataMode)"
    by (simp add: coco_dataset_init_def init_checks_def)
  have 2: "data_mode cfg = ''bottomup'' \<and> bbox_file_set cfg \<longrightarrow>
      coco_dataset_init super_init cfg = ([], Inl BBoxFileNotTopdown)"
    by (simp add: coco_dataset_init_def init_checks_def)
  have 3: "data_mode cfg = ''topdown'' \<and> bbox_file_set cfg \<and> \<not> test_mode cfg \<longrightarrow>
      coco_dataset_init super_init cfg = ([], Inl BBoxFileNotTestMode)"
    by (simp add: coco_dataset_init_def init_checks_def)
  have 4: "init_checks cfg \<noteq> Some BBoxScoreThrNotTopdown"
    by (simp add: init_checks_def)
  have 5: "map_of fc ''bbox_score_thr'' = Some thr \<and> mode \<noteq> ''topdown'' \<longrightarrow>
      filter_data below mode (Some fc) dl = Inl BBoxScoreThrNotTopdown"
    by (simp add: filter_data_def)
  show ?thesis using 1 2 3 4 5 by blast
qed


theorem config_errors_witness:
  "coco_dataset_init (base_init toy_lib sample_world) (sample_config ''sideways'' None)
     = ([], Inl InvalidDataMode)
   \<and> coco_dataset_init (base_init toy_lib sample_world)
       (sample_config ''bottomup'' (Some ''det.json''))
     = ([], Inl BBoxFileNotTopdown)
   \<and> coco_dataset_init (base_init toy_lib sample_world)
       ((sample_config ''topdown'' (Some ''det.json'')) \<lparr> test_mode := False \<rparr>)
     = ([], Inl BBoxFileNotTestMode)
   \<and> filter_data agg_score_below ''bottomup'' (Some [(''bbox_score_thr'', 0.5)])
       ([] :: (toy_seg, toy_obj) aggregate list)
     = Inl BBoxScoreThrNotTopdown"
  using config_errors[of "sample_config ''sideways'' None" "base_init toy_lib sample_world"
          "[(''bbox_score_thr'', 0.5)]" "0.5" "''bottomup''" agg_score_below
          "[] :: (toy_seg, toy_obj) aggregate list"]
        config_errors[of "sample_config ''bottomup'' (Some ''det.json'')"
          "base_init toy_lib sample_world" "[]" 0 "''topdown''" agg_score_below
          "[] :: (toy_seg, toy_obj) aggregate list"]
        config_errors[of "(sample_config ''topdown'' (Some ''det.json'')) \<lparr> test_mode := False \<rparr>"
          "base_init toy_lib sample_world" "[]" 0 "''topdown''" agg_score_below
          "[] :: (toy_seg, toy_obj) aggregate list"]
  by (simp add: sample_config_def bbox_file_set_def)

lemma sample_load_annotations:
  "load_annotations sample_world ''data'' sample_meta ''ann.json''
     = ([''ann.json''],
        Inr [\<lparr> image_id = 1, image_file = ''data/img.jpg'', image_shape = (800, 1000, 3),
               bbox = (10, 10, 50, 50), bbox_score = 1,
               keypoints = [(12, 14), (0, 0)], keypoints_visible = [1, 0], inst_id = 1,
               num_keypoints = 1, iscrowd = 0, segmentation = None, sigmas = [0.5, 0.5] \<rparr>,
             \<lparr> image_id = 1, image_file = ''data/img.jpg'', image_shape = (800, 1000, 3),
               bbox = (20, 20, 30, 30), bbox_score = 1,
               keypoints = [(12, 14), (0, 0)], keypoints_visible = [1, 0], inst_id = 3,
               num_keypoints = 1, iscrowd = 0, segmentation = None, sigmas = [0.5, 0.5] \<rparr>])"
  by (simp add: load_annotations_def sample_world_def sample_coco_def getImgIds_def
        loadImgs_def getAnnIds_def loadAnns_def List.map_filter_def sample_ann_def
        sample_img_def sample_meta_def parse_data_info_def Let_def np_clip_def osp_join_def)

theorem thr_error_after_load_counterexample:
  "init_checks (sample_config ''bottomup'' None) = None
   \<and> coco_dataset_init (base_init toy_lib sample_world) (sample_config ''bottomup'' None)
     = ([''ann.json''], Inl BBoxScoreThrNotTopdown)
   \<and> coco_dataset_init (base_init toy_lib sample_world)
       ((sample_config ''bottomup'' None) \<lparr> lazy_init := True \<rparr>)
     = ([], Inr None)"
proof -
  have c: "init_checks (sample_config ''bottomup'' None) = None"
    "init_checks ((sample_config ''bottomup'' None) \<lparr> lazy_init := True \<rparr>) = None"
    by (simp_all add: init_checks_def sample_config_def bbox_file_set_def)
  have g: "\<exists>out. get_bottomup_data_infos toy_lib
             (projr (snd (load_annotations sample_world ''data'' sample_meta ''ann.json'')))
           = Inr (out :: (toy_seg, toy_obj) aggregate list)"
    unfolding sample_load_annotations
    by (simp add: get_bottomup_data_infos_def aggregate_group_def is_valid_instance_def
          np_concatenate_def Let_def)
  then obtain out :: "(toy_seg, toy_obj) aggregate list" where out: "get_bottomup_data_infos toy_lib
             (projr (snd (load_annotations sample_world ''data'' sample_meta ''ann.json'')))
           = Inr out" by blast
  have l: "load_data_list toy_lib sample_world (sample_config ''bottomup'' None)
             = ([''ann.json''], Inr (Aggregates out))"
    using out unfolding sample_load_annotations
    by (simp add: load_data_list_def sample_config_def bbox_file_set_def sample_load_annotations)
  have f: "full_init toy_lib sample_world (sample_config ''bottomup'' None)
             = ([''ann.json''], Inl BBoxScoreThrNotTopdown)"
    unfolding full_init_def l by (simp add: sample_config_def filter_data_def)
  show ?thesis
    using c f by (simp add: coco_dataset_init_def base_init_def) (simp add: sample_config_def)
qed

text \<open>
  Claim C9, evaluated on the sample run. With a detection file, \<open>load_data_list\<close>
  returns records of the eight keys of \<open>det_info\<close>: there is no \<open>sigmas\<close> key (nor
  \<open>num_keypoints\<close>, \<open>iscrowd\<close>, \<open>segmentation\<close>). Without one, every record carries the
  \<open>sigmas\<close> of the dataset metadata.
\<close>

theorem detection_records_lack_sigmas:
  "load_data_list toy_lib sample_world (sample_config ''topdown'' (Some ''det.json''))
     = ([''ann.json'', ''det.json''],
        Inr (Detections
          [\<lparr> image_id = 1, image_file = ''data/img.jpg'', image_shape = (800, 1000, 3),
             bbox = (-5, 10, 2000, 50), bbox_score = 0.9,
             keypoints = [(0, 0), (0, 0)], keypoints_visible = [1, 1], inst_id = 0 \<rparr>]))
   \<and> (case snd (load_data_list toy_lib sample_world (sample_config ''topdown'' None)) of
         Inr (Instances dl) \<Rightarrow> map sigmas dl
       | _ \<Rightarrow> [])
     = [meta_sigmas sample_meta, meta_sigmas sample_meta]"
proof -
  have d: "load_detection_results sample_world ''data'' sample_meta ''ann.json'' ''det.json''
     = ([''ann.json'', ''det.json''],
        Inr [\<lparr> image_id = 1, image_file = ''data/img.jpg'', image_shape = (800, 1000, 3),
               bbox = (-5, 10, 2000, 50), bbox_score = 0.9,
               keypoints = [(0, 0), (0, 0)], keypoints_visible = [1, 1], inst_id = 0 \<rparr>])"
    by (simp add: load_detection_results_def sample_world_def sample_dets_def sample_coco_def
          loadImgs_def sample_img_def sample_meta_def osp_join_def numeral_eq_Suc)
  have 1: "load_data_list toy_lib sample_world (sample_config ''topdown'' (Some ''det.json''))
     = ([''ann.json'', ''det.json''],
        Inr (Detections
          [\<lparr> image_id = 1, image_file = ''data/img.jpg'', image_shape = (800, 1000, 3),
             bbox = (-5, 10, 2000, 50), bbox_score = 0.9,
             keypoints = [(0, 0), (0, 0)], keypoints_visible = [1, 1], inst_id = 0 \<rparr>]))"
    by (simp add: load_data_list_def sample_config_def bbox_file_set_def d)
  have 2: "(case snd (load_data_list toy_lib sample_world (sample_config ''topdown'' None)) of
         Inr (Instances dl) \<Rightarrow> map sigmas dl
       | _ \<Rightarrow> [])
     = [meta_sigmas sample_meta, meta_sigmas sample_meta]"
    by (simp add: load_data_list_def sample_config_def bbox_file_set_def sample_load_annotations
          get_topdown_data_infos_def is_valid_instance_def)
       (simp add: sample_meta_def)
  show ?thesis using 1 2 by simp
qed

subsection \<open>Ground-truth load path\<close>

lemma loadAnns_not_crowd:
  assumes d: "distinct (map ann_id (coco_anns c))"
    and a: "a \<in> set (loadAnns c (getAnnIds c img_id False))"
  shows "(case ann_iscrowd a of None \<Rightarrow> 0 | Some v \<Rightarrow> v) = 0"
proof -
  from a obtain i where i: "i \<in> set (getAnnIds c img_id False)"
    and f: "find (\<lambda>b. ann_id b = i) (coco_anns c) = Some a"
    by (auto simp: loadAnns_def List.map_filter_def)
  from i obtain a' where a': "a' \<in> set (coco_anns c)" "ann_id a' = i"
    "(case ann_iscrowd a' of None \<Rightarrow> 0 | Some v \<Rightarrow> v) = 0"
    by (auto simp: getAnnIds_def)
  from f have "a \<in> set (coco_anns c)" "ann_id a = i"
    by (auto simp: find_Some_iff)
  with d a' have "a = a'"
    by (auto simp: distinct_map inj_on_def)
  with a' show ?thesis by simp
qed

lemma parse_data_info_iscrowd:
  "parse_data_info pre meta ann img = Inr d \<Longrightarrow>
   iscrowd d = (case ann_iscrowd ann of None \<Rightarrow> 0 | Some v \<Rightarrow> v)"
  by (auto simp: parse_data_info_def Let_def split: prod.splits option.splits)

lemma parse_anns_member:
  "parse_anns pre meta img anns = Inr ds \<Longrightarrow> d \<in> set ds \<Longrightarrow>
   \<exists>a\<in>set anns. parse_data_info pre meta a img = Inr d"
  by (induction anns arbitrary: ds) (auto split: sum.splits)

lemma load_images_member:
  "load_images pre meta c ids = Inr dl \<Longrightarrow> d \<in> set dl \<Longrightarrow>
   \<exists>i img a. a \<in> set (loadAnns c (getAnnIds c i False))
              \<and> parse_data_info pre meta a img = Inr d"
proof (induction ids arbitrary: dl)
  case Nil
  then show ?case by simp
next
  case (Cons i ids)
  from Cons.prems(1) obtain img infos rest where
    p: "parse_anns pre meta img (loadAnns c (getAnnIds c i False)) = Inr infos"
    and r: "load_images pre meta c ids = Inr rest" and dl: "dl = infos @ rest"
    by (auto split: sum.splits)
  from Cons.prems(2) dl consider "d \<in> set infos" | "d \<in> set rest" by auto
  then show ?case
  proof cases
    case 1
    from parse_anns_member[OF p 1] show ?thesis by blast
  next
    case 2
    from Cons.IH[OF r 2] show ?thesis .
  qed
qed

text \<open>
  Claim C10. On the ground-truth load path the annotation ids are enumerated with the
  crowd filter set to false. With unique annotation ids, every record that
  \<open>load_annotations\<close> returns has \<open>iscrowd = 0\<close>; so the validator rejects such a record
  only for zero keypoints or a degenerate box, and its contribution to the invalid-region
  mask is that of the branch for zero keypoints: the crowd branch is never taken.
\<close>

theorem loaded_records_not_crowd:
  assumes "coco_files w f = Some c" and "distinct (map ann_id (coco_anns c))"
    and "load_annotations w pre meta f = (files, Inr dl)"
  shows "\<forall>d\<in>set dl.
           iscrowd d = 0
           \<and> (is_valid_instance d \<longleftrightarrow>
                 num_keypoints d \<noteq> 0 \<and> (case bbox d of (x, y, bw, bh) \<Rightarrow> 0 < bw \<and> 0 < bh))
           \<and> spec_regions lib img_h img_w d
               = (case segmentation d of
                    None \<Rightarrow> []
                  | Some seg \<Rightarrow>
                      if seg_truthy lib seg \<and> num_keypoints d = 0
                      then obj_items lib (frPyObjects lib seg img_h img_w) else [])"
proof
  fix d assume d: "d \<in> set dl"
  from assms(1,3) have "load_images pre meta c (getImgIds c) = Inr dl"
    by (simp add: load_annotations_def)
  from load_images_member[OF this d] obtain i img a where
    a: "a \<in> set (loadAnns c (getAnnIds c i False))"
    and p: "parse_data_info pre meta a img = Inr d" by blast
  from parse_data_info_iscrowd[OF p] loadAnns_not_crowd[OF assms(2) a]
  have z: "iscrowd d = 0" by simp
  then show "iscrowd d = 0
           \<and> (is_valid_instance d \<longleftrightarrow>
                 num_keypoints d \<noteq> 0 \<and> (case bbox d of (x, y, bw, bh) \<Rightarrow> 0 < bw \<and> 0 < bh))
           \<and> spec_regions lib img_h img_w d
               = (case segmentation d of
                    None \<Rightarrow> []
                  | Some seg \<Rightarrow>
                      if seg_truthy lib seg \<and> num_keypoints d = 0
                      then obj_items lib (frPyObjects lib seg img_h img_w) else [])"
    by (auto simp: is_valid_instance_def spec_regions_def split: prod.splits option.splits)
qed

theorem loaded_records_not_crowd_witness:
  "distinct (map ann_id (coco_anns sample_coco))
   \<and> map_sum id (map iscrowd)
        (snd (load_annotations sample_world ''data'' sample_meta ''ann.json''))
       = Inr [0, 0]
   \<and> map_sum id (map inst_id)
        (snd (load_annotations sample_world ''data'' sample_meta ''ann.json''))
       = Inr [1, 3]"
proof -
  have c: "coco_files sample_world ''ann.json'' = Some sample_coco"
    by (simp add: sample_world_def)
  have di: "distinct (map ann_id (coco_anns sample_coco))"
    by (simp add: sample_coco_def sample_ann_def)
  obtain dl where l: "load_annotations sample_world ''data'' sample_meta ''ann.json''
                        = ([''ann.json''], Inr dl)"
    and ids: "map inst_id dl = [1, 3]"
    using sample_load_annotations by simp
  from loaded_records_not_crowd[OF c di l, of toy_lib 800 1000]
  have "\<forall>d\<in>set dl. iscrowd d = 0" by blast
  then have "map iscrowd dl = map (\<lambda>d. 0) dl" by simp
  also have "\<dots> = replicate (length (map inst_id dl)) 0"
    by (simp add: map_replicate_const)
  finally have "map iscrowd dl = [0, 0]" unfolding ids by simp
  with di l ids show ?thesis by simp
qed

end
